theory Spec2Isabelle
  imports Main
begin

section \<open>Values of a parsed configuration\<close>

text \<open>
  \<^verbatim>\<open>json.load\<close> turns the configuration file into Python values: \<^verbatim>\<open>None\<close>,
  \<^verbatim>\<open>bool\<close>, \<^verbatim>\<open>int\<close>, \<^verbatim>\<open>float\<close>, \<^verbatim>\<open>str\<close>, \<^verbatim>\<open>list\<close> and \<^verbatim>\<open>dict\<close> with string
  keys. A float \<open>JFloat m e\<close> stands for \<open>m * 2 ^ e\<close>; a dict is the list of its items.
\<close>

datatype json =
    JNull
  | JBool bool
  | JInt int
  | JFloat int int
  | JStr string
  | JList "json list"
  | JObj "(string \<times> json) list"

text \<open>
  The exceptions that reach the menu's code: the ones its own operations raise on such
  values, and the ones the library calls it makes raise (\<^verbatim>\<open>RuntimeError\<close> and
  \<^verbatim>\<open>OSError\<close> from \<^verbatim>\<open>pathlib\<close>, \<^verbatim>\<open>ValueError\<close> from \<^verbatim>\<open>addstr\<close>).
\<close>

datatype exn =
    TypeError | KeyError | IndexError | AttributeError | ValueError | RuntimeError | OSError

definition bind :: "exn + 'a \<Rightarrow> ('a \<Rightarrow> exn + 'b) \<Rightarrow> exn + 'b" where
  "bind m f = (case m of Inl e \<Rightarrow> Inl e | Inr v \<Rightarrow> f v)"

subsection \<open>The Python operations the menu applies to these values\<close>

fun starts_with :: "string \<Rightarrow> string \<Rightarrow> bool" where
  "starts_with [] s = True"
| "starts_with (c # k) [] = False"
| "starts_with (c # k) (d # s) = (c = d \<and> starts_with k s)"

fun substring :: "string \<Rightarrow> string \<Rightarrow> bool" where
  "substring k [] = (k = [])"
| "substring k (c # s) = (starts_with k (c # s) \<or> substring k s)"

text \<open>
  \<^verbatim>\<open>k in v\<close> for a string \<open>k\<close>: a key of a dict, an element of a list, a substring of a
  string; every other value is not iterable (\<^verbatim>\<open>TypeError\<close>).
\<close>

fun py_in :: "string \<Rightarrow> json \<Rightarrow> exn + bool" where
  "py_in k (JObj kvs) = Inr (map_of kvs k \<noteq> None)"
| "py_in k (JList xs) = Inr (JStr k \<in> set xs)"
| "py_in k (JStr s) = Inr (substring k s)"
| "py_in k v = Inl TypeError"

text \<open>
  \<^verbatim>\<open>v[k]\<close> for a string \<open>k\<close>: \<^verbatim>\<open>KeyError\<close> on a dict without the key, \<^verbatim>\<open>TypeError\<close> on
  everything else (a list or string wants an integer, the rest is not subscriptable).
\<close>

fun py_getitem :: "json \<Rightarrow> string \<Rightarrow> exn + json" where
  "py_getitem (JObj kvs) k = (case map_of kvs k of None \<Rightarrow> Inl KeyError | Some v \<Rightarrow> Inr v)"
| "py_getitem v k = Inl TypeError"

text \<open>\<^verbatim>\<open>v.get(k, d)\<close>: only a dict has the method.\<close>

fun py_get :: "json \<Rightarrow> string \<Rightarrow> json \<Rightarrow> exn + json" where
  "py_get (JObj kvs) k d = Inr (case map_of kvs k of None \<Rightarrow> d | Some v \<Rightarrow> v)"
| "py_get v k d = Inl AttributeError"

text \<open>\<^verbatim>\<open>len(v)\<close>.\<close>

fun py_len :: "json \<Rightarrow> exn + int" where
  "py_len (JList xs) = Inr (int (length xs))"
| "py_len (JStr s) = Inr (int (length s))"
| "py_len (JObj kvs) = Inr (int (length (remdups (map fst kvs))))"
| "py_len v = Inl TypeError"

text \<open>
  \<^verbatim>\<open>v[i]\<close> for an integer \<open>i\<close>; a negative index counts from the end. A dict of string
  keys has no integer key.
\<close>

definition list_index :: "'a list \<Rightarrow> int \<Rightarrow> exn + 'a" where
  "list_index xs i =
     (if 0 \<le> i \<and> i < int (length xs) then Inr (xs ! nat i)
      else if i < 0 \<and> - int (length xs) \<le> i then Inr (xs ! nat (int (length xs) + i))
      else Inl IndexError)"

fun py_index :: "json \<Rightarrow> int \<Rightarrow> exn + json" where
  "py_index (JList xs) i = list_index xs i"
| "py_index (JStr s) i = bind (list_index s i) (\<lambda>c. Inr (JStr [c]))"
| "py_index (JObj kvs) i = Inl KeyError"
| "py_index v i = Inl TypeError"

text \<open>The items \<^verbatim>\<open>enumerate(v)\<close> walks through.\<close>

fun py_iter :: "json \<Rightarrow> exn + json list" where
  "py_iter (JList xs) = Inr xs"
| "py_iter (JStr s) = Inr (map (\<lambda>c. JStr [c]) s)"
| "py_iter (JObj kvs) = Inr (map JStr (remdups (map fst kvs)))"
| "py_iter v = Inl TypeError"

text \<open>Truth value of a value in a condition.\<close>

fun truthy :: "json \<Rightarrow> bool" where
  "truthy JNull = False"
| "truthy (JBool b) = b"
| "truthy (JInt i) = (i \<noteq> 0)"
| "truthy (JFloat m e) = (m \<noteq> 0)"
| "truthy (JStr s) = (s \<noteq> [])"
| "truthy (JList xs) = (xs \<noteq> [])"
| "truthy (JObj kvs) = (kvs \<noteq> [])"

text \<open>\<^verbatim>\<open>isinstance(v, int)\<close>: \<^verbatim>\<open>bool\<close> is a subclass of \<^verbatim>\<open>int\<close>.\<close>

fun isinstance_int :: "json \<Rightarrow> bool" where
  "isinstance_int (JInt i) = True"
| "isinstance_int (JBool b) = True"
| "isinstance_int v = False"

text \<open>The number an \<^verbatim>\<open>int\<close> instance compares as: \<^verbatim>\<open>True\<close> is 1, \<^verbatim>\<open>False\<close> is 0.\<close>

fun int_value :: "json \<Rightarrow> int" where
  "int_value (JInt i) = i"
| "int_value (JBool b) = (if b then 1 else 0)"
| "int_value v = 0"

section \<open>Normalizer\<close>

text \<open>
  \<^verbatim>\<open>get_port\<close>. The \<^verbatim>\<open>or\<close> of the source is evaluated left to right: the range is
  compared only for an \<^verbatim>\<open>int\<close> instance.
\<close>

definition get_port :: "json \<Rightarrow> exn + json" where
  "get_port server =
     bind (py_get server ''port'' (JInt 22)) (\<lambda>port.
       if \<not> isinstance_int port then Inr (JInt 22)
       else if \<not> (1 \<le> int_value port \<and> int_value port \<le> 65535) then Inr (JInt 22)
       else Inr port)"

text \<open>
  \<^verbatim>\<open>get_auth_method_display\<close>. \<^verbatim>\<open>Path\<close> accepts a string only. \<open>expanduser p\<close> is
  what \<^verbatim>\<open>str(Path(p).expanduser())\<close> does in the environment the program runs in: the
  expanded path, or the exception the library raises (\<^verbatim>\<open>RuntimeError\<close> when the home
  directory of a path that starts with a tilde cannot be determined).
\<close>

definition get_auth_method_display ::
  "(string \<Rightarrow> exn + string) \<Rightarrow> json \<Rightarrow> exn + string \<times> string option" where
  "get_auth_method_display expanduser user =
     bind (py_get user ''key_path'' JNull) (\<lambda>key_path.
       if truthy key_path then
         (case key_path of
            JStr p \<Rightarrow> bind (expanduser p) (\<lambda>expanded_path. Inr (''KEY'', Some expanded_path))
          | _ \<Rightarrow> Inl TypeError)
       else Inr (''PASSWORD'', None))"

text \<open>The dict \<^verbatim>\<open>server_info\<close> that \<^verbatim>\<open>normalize_server_format\<close> builds.\<close>

record server_info =
  info_ip :: json
  info_description :: json
  info_port :: json

definition normalize_server_format :: "json \<Rightarrow> exn + server_info \<times> json" where
  "normalize_server_format server =
     bind (py_getitem server ''ip'') (\<lambda>ip.
     bind (py_get server ''description'' (JStr ''N/A'')) (\<lambda>description.
     bind (get_port server) (\<lambda>port.
     bind (py_in ''users'' server) (\<lambda>has_users.
     bind (if has_users then py_getitem server ''users''
           else
             bind (py_getitem server ''username'') (\<lambda>username.
             bind (py_get server ''key_path'' JNull) (\<lambda>key_path.
             bind (py_get server ''description'' (JStr ''Default user'')) (\<lambda>user_description.
               Inr (JList [JObj [(''username'', username), (''key_path'', key_path),
                                 (''description'', user_description)]]))))) (\<lambda>users.
       Inr (\<lparr>info_ip = ip, info_description = description, info_port = port\<rparr>, users))))))"

section \<open>Validator\<close>

text \<open>
  One constructor per message template of \<^verbatim>\<open>validate_config\<close>; the indices are the ones
  the message embeds (network, server, user), the string or value is the one it quotes.
\<close>

datatype message =
    ConfigNotObject
  | MissingNetworksKey
  | NetworksNotArray
  | NetworkMissingField nat string
  | ServersNotArray nat
  | ServerMissingIp nat nat
  | MustHaveEither nat nat
  | CannotHaveBoth nat nat
  | UsersNotArray nat nat
  | UsersEmpty nat nat
  | UserMissingUsername nat nat nat
  | UserKeyNotFound nat nat nat string
  | InvalidPort nat nat json
  | ServerKeyNotFound nat nat string

text \<open>
  \<^verbatim>\<open>for idx, x in enumerate(xs)\<close> with a body that appends to \<^verbatim>\<open>errors\<close>: the messages
  of the items in order; an exception in one body ends the whole call.
\<close>

fun for_each :: "(nat \<Rightarrow> 'a \<Rightarrow> exn + message list) \<Rightarrow> nat \<Rightarrow> 'a list \<Rightarrow> exn + message list" where
  "for_each body idx [] = Inr []"
| "for_each body idx (x # xs) =
     bind (body idx x) (\<lambda>errors.
     bind (for_each body (Suc idx) xs) (\<lambda>more. Inr (errors @ more)))"

text \<open>
  The file system as the validator meets it. \<open>fs_expanduser fs p\<close> is what
  \<^verbatim>\<open>Path(p).expanduser()\<close> does, the expanded path or the exception raised
  (\<^verbatim>\<open>RuntimeError\<close> for a home directory that cannot be determined);
  \<open>fs_exists fs q\<close> is what \<^verbatim>\<open>exists()\<close> does on the expanded path \<open>q\<close>, the answer or
  the exception raised (an \<^verbatim>\<open>OSError\<close> that \<^verbatim>\<open>exists\<close> does not swallow, such as a
  name too long or a directory that may not be searched).
\<close>

record filesystem =
  fs_expanduser :: "string \<Rightarrow> exn + string"
  fs_exists :: "string \<Rightarrow> exn + bool"

text \<open>
  The key check, written twice in the source (for a user, and for a server of the old
  format): \<^verbatim>\<open>if 'key_path' in x and x['key_path']\<close>, then the path is expanded and must
  exist. \<^verbatim>\<open>Path\<close> accepts a string only.
\<close>

definition check_key_path ::
  "filesystem \<Rightarrow> json \<Rightarrow> (string \<Rightarrow> message) \<Rightarrow> exn + message list" where
  "check_key_path fs x not_found =
     bind (py_in ''key_path'' x) (\<lambda>has_key_path.
       if has_key_path then
         bind (py_getitem x ''key_path'') (\<lambda>key_path.
           if truthy key_path then
             (case key_path of
                JStr p \<Rightarrow>
                  bind (fs_expanduser fs p) (\<lambda>expanded.
                  bind (fs_exists fs expanded) (\<lambda>found.
                    Inr (if found then [] else [not_found p])))
              | _ \<Rightarrow> Inl TypeError)
           else Inr [])
       else Inr [])"

definition validate_user ::
  "filesystem \<Rightarrow> nat \<Rightarrow> nat \<Rightarrow> nat \<Rightarrow> json \<Rightarrow> exn + message list" where
  "validate_user fs idx srv_idx user_idx user =
     bind (py_in ''username'' user) (\<lambda>has_username.
     bind (check_key_path fs user (UserKeyNotFound idx srv_idx user_idx)) (\<lambda>key_errors.
       Inr ((if has_username then [] else [UserMissingUsername idx srv_idx user_idx])
            @ key_errors)))"

definition validate_server ::
  "filesystem \<Rightarrow> nat \<Rightarrow> nat \<Rightarrow> json \<Rightarrow> exn + message list" where
  "validate_server fs idx srv_idx server =
     bind (py_in ''ip'' server) (\<lambda>has_ip.
     bind (py_in ''username'' server) (\<lambda>has_username.
     bind (py_in ''users'' server) (\<lambda>has_users.
     bind (if has_users then
             bind (py_getitem server ''users'') (\<lambda>users.
               case users of
                 JList us \<Rightarrow>
                   if us = [] then Inr [UsersEmpty idx srv_idx]
                   else for_each (validate_user fs idx srv_idx) 0 us
               | _ \<Rightarrow> Inr [UsersNotArray idx srv_idx])
           else Inr []) (\<lambda>users_errors.
     bind (py_in ''port'' server) (\<lambda>has_port.
     bind (if has_port then
             bind (py_getitem server ''port'') (\<lambda>port.
               if port = JNull then Inr []
               else if \<not> isinstance_int port then Inr [InvalidPort idx srv_idx port]
               else if \<not> (1 \<le> int_value port \<and> int_value port \<le> 65535)
                 then Inr [InvalidPort idx srv_idx port]
               else Inr [])
           else Inr []) (\<lambda>port_errors.
     bind (if has_username then check_key_path fs server (ServerKeyNotFound idx srv_idx)
           else Inr []) (\<lambda>key_errors.
       Inr ((if has_ip then [] else [ServerMissingIp idx srv_idx])
            @ (if \<not> has_username \<and> \<not> has_users then [MustHaveEither idx srv_idx] else [])
            @ (if has_username \<and> has_users then [CannotHaveBoth idx srv_idx] else [])
            @ users_errors @ port_errors @ key_errors))))))))"

definition validate_network :: "filesystem \<Rightarrow> nat \<Rightarrow> json \<Rightarrow> exn + message list" where
  "validate_network fs idx network =
     bind (py_in ''name'' network) (\<lambda>has_name.
     bind (py_in ''servers'' network) (\<lambda>has_servers.
     bind (if has_servers then
             bind (py_getitem network ''servers'') (\<lambda>servers.
               case servers of
                 JList srvs \<Rightarrow> for_each (validate_server fs idx) 0 srvs
               | _ \<Rightarrow> Inr [ServersNotArray idx])
           else Inr []) (\<lambda>server_errors.
       Inr ((if has_name then [] else [NetworkMissingField idx ''name''])
            @ (if has_servers then [] else [NetworkMissingField idx ''servers''])
            @ server_errors))))"

definition validate_config :: "filesystem \<Rightarrow> json \<Rightarrow> exn + message list" where
  "validate_config fs config =
     (case config of
        JObj kvs \<Rightarrow>
          (case map_of kvs ''networks'' of
             None \<Rightarrow> Inr [MissingNetworksKey]
           | Some (JList nets) \<Rightarrow> for_each (validate_network fs) 0 nets
           | Some _ \<Rightarrow> Inr [NetworksNotArray])
      | _ \<Rightarrow> Inr [ConfigNotObject])"

section \<open>ConnectionLauncher\<close>

text \<open>
  The argument list \<^verbatim>\<open>connect_ssh\<close> hands to \<^verbatim>\<open>subprocess.run\<close>:
  \<^verbatim>\<open>["ssh", "-p", str(port)]\<close>, then \<^verbatim>\<open>["-i", key_info]\<close> for the method KEY, then
  the user name and the address joined by an at sign. The values are kept as they are,
  not rendered.
\<close>

record ssh_command =
  cmd_port :: json
  cmd_key :: "string option"
  cmd_username :: json
  cmd_ip :: json

text \<open>
  \<^verbatim>\<open>connect_ssh\<close>: what it reads from its arguments before it runs the external process.
  The process and the prompt after it are the environment's: every exception of
  \<^verbatim>\<open>subprocess.run\<close> is caught by the source, and the call is taken to return once the
  operator acknowledges at the prompt.
\<close>

definition connect_ssh :: "(string \<Rightarrow> exn + string) \<Rightarrow> server_info \<Rightarrow> json \<Rightarrow> exn + ssh_command" where
  "connect_ssh expanduser server_info user =
     bind (py_getitem user ''username'') (\<lambda>username.
     bind (py_get user ''description'' (JStr ''N/A'')) (\<lambda>user_desc.
     bind (get_auth_method_display expanduser user) (\<lambda>(auth_method, key_info).
       Inr \<lparr>cmd_port = info_port server_info,
            cmd_key = (if auth_method = ''KEY'' then key_info else None),
            cmd_username = username,
            cmd_ip = info_ip server_info\<rparr>)))"

section \<open>SelectionStateMachine\<close>

text \<open>
  The environment of the interactive loop: what \<^verbatim>\<open>str(Path(p).expanduser())\<close> does on a
  key path (as for \<open>get_auth_method_display\<close>), and the height \<^verbatim>\<open>stdscr.getmaxyx()\<close>
  reports. The terminal is taken to support what \<^verbatim>\<open>_run_curses\<close> sets up, and the
  window wide enough that no write inside this height makes curses report an error, so no
  \<^verbatim>\<open>curses.error\<close> cuts a row's drawing short.
\<close>

record env =
  env_expanduser :: "string \<Rightarrow> exn + string"
  env_height :: int

subsection \<open>What a draw puts on the screen\<close>

datatype network_row = NetworkRow bool string string int

datatype server_row = ServerRow bool server_info int "json option"

datatype user_row = UserRow bool json string string "string option"

datatype screen =
    NetworkScreen "network_row list"
  | NoServersScreen json string
  | ServerScreen json "server_row list"
  | UserScreen server_info "user_row list"

text \<open>
  \<^verbatim>\<open>stdscr.addstr\<close> converts its text before curses sees it, and raises \<^verbatim>\<open>ValueError\<close> on
  an embedded NUL character; the source catches \<^verbatim>\<open>curses.error\<close> only. The text of a
  call is a format string over values of the inventory: \<open>addstr vals\<close> is the call whose
  text formats the values \<open>vals\<close> between constant pieces. Only a string puts its own
  characters into the text; the text Python makes of any other value (digits, letters,
  brackets, quotes, escapes) has no NUL, and neither have the constant pieces. Every
  other character is taken to be one the terminal's encoding can write.
\<close>

fun has_nul :: "json \<Rightarrow> bool" where
  "has_nul (JStr s) = (CHR 0x00 \<in> set s)"
| "has_nul v = False"

definition addstr :: "json list \<Rightarrow> exn + unit" where
  "addstr vals = (if list_ex has_nul vals then Inl ValueError else Inr ())"

text \<open>
  \<^verbatim>\<open>draw_header\<close>: of its three writes only the title carries values of the inventory.
\<close>

definition draw_header :: "json list \<Rightarrow> exn + unit" where
  "draw_header title_vals = addstr title_vals"

text \<open>
  The drawing loop of the three menus: \<^verbatim>\<open>for idx, x in enumerate(xs)\<close>, left by
  \<^verbatim>\<open>break\<close> at the first row that does not fit.
\<close>

fun draw_rows :: "(int \<Rightarrow> 'a \<Rightarrow> exn + 'r) \<Rightarrow> (int \<Rightarrow> bool) \<Rightarrow> int \<Rightarrow> 'a list \<Rightarrow> exn + 'r list" where
  "draw_rows row fits idx [] = Inr []"
| "draw_rows row fits idx (x # xs) =
     (if \<not> fits idx then Inr []
      else bind (row idx x) (\<lambda>r.
           bind (draw_rows row fits (idx + 1) xs) (\<lambda>rs. Inr (r # rs))))"

text \<open>\<^verbatim>\<open>v.ljust(n)\<close>: a method of strings only.\<close>

fun py_ljust :: "json \<Rightarrow> nat \<Rightarrow> exn + string" where
  "py_ljust (JStr s) n = Inr (s @ replicate (n - length s) CHR '' '')"
| "py_ljust v n = Inl AttributeError"

text \<open>A value passed to \<^verbatim>\<open>addstr\<close> as the text itself must be a string.\<close>

fun addstr_text :: "json \<Rightarrow> exn + string" where
  "addstr_text (JStr s) = Inr s"
| "addstr_text v = Inl TypeError"

text \<open>
  A row of the network menu: the values are read before the \<^verbatim>\<open>try\<close>, the line that
  shows the padded name and cidr is written inside it.
\<close>

definition draw_network_row :: "int \<Rightarrow> int \<Rightarrow> json \<Rightarrow> exn + network_row" where
  "draw_network_row current_row idx network =
     bind (py_getitem network ''name'') (\<lambda>name_value.
     bind (py_ljust name_value 15) (\<lambda>name.
     bind (py_get network ''cidr'' (JStr ''N/A'')) (\<lambda>cidr_value.
     bind (py_ljust cidr_value 18) (\<lambda>cidr.
     bind (py_get network ''servers'' (JList [])) (\<lambda>servers.
     bind (py_len servers) (\<lambda>server_count.
     bind (addstr [JStr name, JStr cidr]) (\<lambda>written.
       Inr (NetworkRow (idx = current_row) name cidr server_count))))))))"

text \<open>
  A row of the server menu. Inside the \<^verbatim>\<open>try\<close>: the address with the port is written,
  then the description at a column computed from \<^verbatim>\<open>len(ip)\<close>, then the line of the
  users, which shows a user name only when there is exactly one user.
\<close>

definition draw_server_row :: "int \<Rightarrow> int \<Rightarrow> json \<Rightarrow> exn + server_row" where
  "draw_server_row current_row idx server =
     bind (normalize_server_format server) (\<lambda>(server_info, users).
     bind (py_len users) (\<lambda>user_count.
     bind (if user_count = 1 then
             bind (py_index users 0) (\<lambda>user.
             bind (py_getitem user ''username'') (\<lambda>username. Inr (Some username)))
           else Inr None) (\<lambda>user_display.
     bind (addstr [info_ip server_info]) (\<lambda>written.
     bind (py_len (info_ip server_info)) (\<lambda>ip_len.
     bind (addstr [info_description server_info]) (\<lambda>written.
     bind (addstr (case user_display of None \<Rightarrow> [] | Some username \<Rightarrow> [username])) (\<lambda>written.
       Inr (ServerRow (idx = current_row) server_info user_count user_display))))))))"

text \<open>The key path as the user menu shows it: a long one keeps its last 47 characters.\<close>

definition key_display :: "string \<Rightarrow> string" where
  "key_display key_info =
     (if length key_info < 50 then key_info
      else ''...'' @ drop (length key_info - 47) key_info)"

text \<open>
  A row of the user menu. Inside the \<^verbatim>\<open>try\<close>: the user name is written, then the
  description as the text itself, then the method, with the key path when there is one.
\<close>

definition draw_user_row :: "(string \<Rightarrow> exn + string) \<Rightarrow> int \<Rightarrow> int \<Rightarrow> json \<Rightarrow> exn + user_row" where
  "draw_user_row expanduser current_row idx user =
     bind (py_getitem user ''username'') (\<lambda>username.
     bind (py_get user ''description'' (JStr ''No description'')) (\<lambda>user_desc.
     bind (get_auth_method_display expanduser user) (\<lambda>(auth_method, key_info).
     bind (addstr [username]) (\<lambda>written.
     bind (addstr_text user_desc) (\<lambda>desc_text.
     bind (addstr [JStr desc_text]) (\<lambda>written.
     bind (addstr (case key_info of
                     None \<Rightarrow> []
                   | Some k \<Rightarrow> if k \<noteq> [] then [JStr (key_display k)] else [])) (\<lambda>written.
       Inr (UserRow (idx = current_row) username desc_text auth_method key_info))))))))"

subsection \<open>States: where the loop waits for a key\<close>

text \<open>
  \<open>NetworkList current_row\<close> is the loop of \<^verbatim>\<open>run_network_selection\<close>;
  \<open>NoServers\<close> and \<open>ServerList\<close> are the two places \<^verbatim>\<open>run_server_selection\<close> reads a
  key, \<open>UserList\<close> the loop of \<^verbatim>\<open>run_user_selection\<close>. A nested state carries the
  local variables of its callers, to which it returns. \<open>Exit\<close>: the outermost loop
  has returned.
\<close>

datatype state =
    NetworkList int
  | NoServers int json
  | ServerList int json json int
  | UserList int json json int server_info json int
  | Exit

datatype event = Draw screen | Ssh ssh_command

definition KEY_UP :: int where
  "KEY_UP = 259"

definition KEY_DOWN :: int where
  "KEY_DOWN = 258"

definition KEY_ENTER :: int where
  "KEY_ENTER = 10"

definition quit_keys :: "int list" where
  "quit_keys = [113, 81, 27]"

text \<open>
  The test \<^verbatim>\<open>key == curses.KEY_DOWN and current_row < len(xs) - 1\<close>: the length is taken
  only for that key.
\<close>

definition moves_down :: "int \<Rightarrow> json \<Rightarrow> int \<Rightarrow> exn + bool" where
  "moves_down key xs current_row =
     (if key = KEY_DOWN then bind (py_len xs) (\<lambda>n. Inr (current_row < n - 1))
      else Inr False)"

text \<open>
  The start of \<^verbatim>\<open>run_server_selection\<close>: an empty (falsy) \<^verbatim>\<open>servers\<close> leads to the
  message and its single key, anything else to the server loop with the cursor at 0.
\<close>

definition run_server_selection :: "int \<Rightarrow> json \<Rightarrow> exn + state" where
  "run_server_selection outer_row network =
     bind (py_get network ''servers'' (JList [])) (\<lambda>servers.
       if \<not> truthy servers then Inr (NoServers outer_row network)
       else Inr (ServerList outer_row network servers 0))"

text \<open>The key handling of each loop: the events it causes and the state that reads the next key.\<close>

fun handle_key :: "env \<Rightarrow> json \<Rightarrow> state \<Rightarrow> int \<Rightarrow> exn + event list \<times> state" where
  "handle_key E networks (NetworkList current_row) key =
     (if key = KEY_UP \<and> current_row > 0 then Inr ([], NetworkList (current_row - 1))
      else bind (moves_down key networks current_row) (\<lambda>down.
        if down then Inr ([], NetworkList (current_row + 1))
        else if key = KEY_ENTER then
          bind (py_index networks current_row) (\<lambda>network.
          bind (run_server_selection current_row network) (\<lambda>st. Inr ([], st)))
        else if key \<in> set quit_keys then Inr ([], Exit)
        else Inr ([], NetworkList current_row)))"
| "handle_key E networks (NoServers outer_row network) key = Inr ([], NetworkList outer_row)"
| "handle_key E networks (ServerList outer_row network servers current_row) key =
     (if key = KEY_UP \<and> current_row > 0
        then Inr ([], ServerList outer_row network servers (current_row - 1))
      else bind (moves_down key servers current_row) (\<lambda>down.
        if down then Inr ([], ServerList outer_row network servers (current_row + 1))
        else if key = KEY_ENTER then
          bind (py_index servers current_row) (\<lambda>server.
          bind (normalize_server_format server) (\<lambda>(server_info, users).
          bind (py_len users) (\<lambda>user_count.
            if user_count = 1 then
              bind (py_index users 0) (\<lambda>user.
              bind (connect_ssh (env_expanduser E) server_info user) (\<lambda>cmd.
                Inr ([Ssh cmd], ServerList outer_row network servers current_row)))
            else
              Inr ([], UserList outer_row network servers current_row server_info users 0))))
        else if key \<in> set quit_keys then Inr ([], NetworkList outer_row)
        else Inr ([], ServerList outer_row network servers current_row)))"
| "handle_key E networks (UserList outer_row network servers server_row server_info users current_row) key =
     (if key = KEY_UP \<and> current_row > 0
        then Inr ([], UserList outer_row network servers server_row server_info users (current_row - 1))
      else bind (moves_down key users current_row) (\<lambda>down.
        if down
          then Inr ([], UserList outer_row network servers server_row server_info users (current_row + 1))
        else if key = KEY_ENTER then
          bind (py_index users current_row) (\<lambda>user.
          bind (connect_ssh (env_expanduser E) server_info user) (\<lambda>cmd.
            Inr ([Ssh cmd],
                 UserList outer_row network servers server_row server_info users current_row)))
        else if key \<in> set quit_keys then Inr ([], ServerList outer_row network servers server_row)
        else Inr ([], UserList outer_row network servers server_row server_info users current_row)))"
| "handle_key E networks Exit key = Inr ([], Exit)"

text \<open>
  What each state draws before it reads its key: the header with its title, then the
  rows (for the user menu, the line of the server first). The footers and the message of
  the empty network are constant texts.
\<close>

fun draw :: "env \<Rightarrow> json \<Rightarrow> state \<Rightarrow> exn + event list" where
  "draw E networks (NetworkList current_row) =
     bind (draw_header []) (\<lambda>header.
     bind (py_iter networks) (\<lambda>items.
     bind (draw_rows (draw_network_row current_row) (\<lambda>idx. \<not> (4 + idx \<ge> env_height E - 3)) 0 items)
       (\<lambda>rows. Inr [Draw (NetworkScreen rows)])))"
| "draw E networks (NoServers outer_row network) =
     bind (py_getitem network ''name'') (\<lambda>name.
     bind (draw_header [name]) (\<lambda>header.
       Inr [Draw (NoServersScreen name ''No servers configured in this network'')]))"
| "draw E networks (ServerList outer_row network servers current_row) =
     bind (py_getitem network ''name'') (\<lambda>name.
     bind (draw_header [name]) (\<lambda>header.
     bind (py_iter servers) (\<lambda>items.
     bind (draw_rows (draw_server_row current_row) (\<lambda>idx. \<not> (4 + idx * 3 \<ge> env_height E - 4)) 0 items)
       (\<lambda>rows. Inr [Draw (ServerScreen name rows)]))))"
| "draw E networks (UserList outer_row network servers server_row server_info users current_row) =
     bind (draw_header [info_ip server_info]) (\<lambda>header.
     bind (addstr [info_ip server_info, info_description server_info]) (\<lambda>written.
     bind (py_iter users) (\<lambda>items.
     bind (draw_rows (draw_user_row (env_expanduser E) current_row)
             (\<lambda>idx. \<not> (6 + idx * 3 \<ge> env_height E - 4)) 0 items)
       (\<lambda>rows. Inr [Draw (UserScreen server_info rows)]))))"
| "draw E networks Exit = Inr []"

text \<open>One turn of a loop after its key: handle the key, then draw the state that reads next.\<close>

definition step :: "env \<Rightarrow> json \<Rightarrow> state \<Rightarrow> int \<Rightarrow> exn + event list \<times> state" where
  "step E networks st key =
     bind (handle_key E networks st key) (\<lambda>(events, st').
     bind (draw E networks st') (\<lambda>drawn. Inr (events @ drawn, st')))"

fun run_keys :: "env \<Rightarrow> json \<Rightarrow> state \<Rightarrow> int list \<Rightarrow> exn + event list \<times> state" where
  "run_keys E networks st [] = Inr ([], st)"
| "run_keys E networks st (key # keys) =
     bind (step E networks st key) (\<lambda>(events, st').
     bind (run_keys E networks st' keys) (\<lambda>(more, st''). Inr (events @ more, st'')))"

text \<open>
  \<^verbatim>\<open>run_network_selection\<close> from its first line, fed the keys \<^verbatim>\<open>getch\<close> returns: the
  cursor starts at 0 and the menu is drawn before the first key is read.
\<close>

definition run_network_selection :: "env \<Rightarrow> json \<Rightarrow> int list \<Rightarrow> exn + event list \<times> state" where
  "run_network_selection E config keys =
     bind (py_getitem config ''networks'') (\<lambda>networks.
     bind (draw E networks (NetworkList 0)) (\<lambda>drawn.
     bind (run_keys E networks (NetworkList 0) keys) (\<lambda>(events, st). Inr (drawn @ events, st))))"

text \<open>
  \<^verbatim>\<open>run\<close> on a configuration already loaded: exit code 1 with the messages printed, or
  the interactive loop. An exception of the validator or of the loop is caught nowhere.
\<close>

datatype outcome =
    Exited int "message list" "event list"
  | Uncaught exn
  | Waiting "event list" state

definition run :: "filesystem \<Rightarrow> env \<Rightarrow> json \<Rightarrow> int list \<Rightarrow> outcome" where
  "run fs E config keys =
     (case validate_config fs config of
        Inl e \<Rightarrow> Uncaught e
      | Inr errors \<Rightarrow>
          if errors \<noteq> [] then Exited 1 errors []
          else
            (case run_network_selection E config keys of
               Inl e \<Rightarrow> Uncaught e
             | Inr (events, st) \<Rightarrow>
                 if st = Exit then Exited 0 [] events else Waiting events st))"

section \<open>Predicates the properties are stated with\<close>

text \<open>
  The input shape of the data model: every network, server and user is an object, and a
  \<^verbatim>\<open>key_path\<close> is absent, null or a string.
\<close>

definition typed_key_path :: "(string \<times> json) list \<Rightarrow> bool" where
  "typed_key_path kvs =
     (case map_of kvs ''key_path'' of
        None \<Rightarrow> True | Some JNull \<Rightarrow> True | Some (JStr p) \<Rightarrow> True | Some _ \<Rightarrow> False)"

definition typed_user :: "json \<Rightarrow> bool" where
  "typed_user user = (case user of JObj kvs \<Rightarrow> typed_key_path kvs | _ \<Rightarrow> False)"

definition typed_server :: "json \<Rightarrow> bool" where
  "typed_server server =
     (case server of
        JObj kvs \<Rightarrow>
          typed_key_path kvs \<and>
          (case map_of kvs ''users'' of Some (JList us) \<Rightarrow> list_all typed_user us | _ \<Rightarrow> True)
      | _ \<Rightarrow> False)"

definition typed_network :: "json \<Rightarrow> bool" where
  "typed_network network =
     (case network of
        JObj kvs \<Rightarrow>
          (case map_of kvs ''servers'' of Some (JList srvs) \<Rightarrow> list_all typed_server srvs | _ \<Rightarrow> True)
      | _ \<Rightarrow> False)"

definition typed_config :: "json \<Rightarrow> bool" where
  "typed_config config =
     (case config of
        JObj kvs \<Rightarrow>
          (case map_of kvs ''networks'' of Some (JList nets) \<Rightarrow> list_all typed_network nets | _ \<Rightarrow> True)
      | _ \<Rightarrow> True)"

text \<open>The cursor of a list state lies within \<open>[0, len - 1]\<close>, \<open>len\<close> the number of rows.\<close>

definition cursor_in_range :: "json \<Rightarrow> int \<Rightarrow> bool" where
  "cursor_in_range xs current_row =
     (case py_len xs of Inl e \<Rightarrow> False | Inr n \<Rightarrow> 0 \<le> current_row \<and> current_row \<le> n - 1)"

text \<open>
  What the validator leaves of an inventory it accepts, as far as the cursors need it:
  \<^verbatim>\<open>networks\<close> is a list of objects, each with a list \<^verbatim>\<open>servers\<close>, and a server object
  that has \<^verbatim>\<open>users\<close> has a non-empty list there. \<open>state_ok\<close> says that every cursor a
  state carries, its own and those of the loops it returns to, is in range.
\<close>

fun nonempty_list :: "json \<Rightarrow> bool" where
  "nonempty_list (JList xs) = (xs \<noteq> [])"
| "nonempty_list v = False"

fun server_ok :: "json \<Rightarrow> bool" where
  "server_ok (JObj kvs) =
     (case map_of kvs ''users'' of None \<Rightarrow> True | Some users \<Rightarrow> nonempty_list users)"
| "server_ok v = True"

fun servers_ok :: "json \<Rightarrow> bool" where
  "servers_ok (JList srvs) = list_all server_ok srvs"
| "servers_ok v = False"

fun network_ok :: "json \<Rightarrow> bool" where
  "network_ok (JObj kvs) =
     (case map_of kvs ''servers'' of None \<Rightarrow> False | Some servers \<Rightarrow> servers_ok servers)"
| "network_ok v = False"

fun networks_ok :: "json \<Rightarrow> bool" where
  "networks_ok (JList nets) = list_all network_ok nets"
| "networks_ok v = False"

fun state_ok :: "json \<Rightarrow> state \<Rightarrow> bool" where
  "state_ok networks (NetworkList current_row) = cursor_in_range networks current_row"
| "state_ok networks (NoServers outer_row network) = cursor_in_range networks outer_row"
| "state_ok networks (ServerList outer_row network servers current_row) =
     (cursor_in_range networks outer_row \<and> servers_ok servers \<and> cursor_in_range servers current_row)"
| "state_ok networks (UserList outer_row network servers server_row server_info users current_row) =
     (cursor_in_range networks outer_row \<and> servers_ok servers \<and> cursor_in_range servers server_row
      \<and> cursor_in_range users current_row)"
| "state_ok networks Exit = True"

section \<open>Basic facts\<close>

lemma bind_Inl [simp]: "bind (Inl e) f = Inl e"
  by (simp add: bind_def)

lemma bind_Inr [simp]: "bind (Inr v) f = f v"
  by (simp add: bind_def)

lemma bind_Inr_iff: "bind m f = Inr r \<longleftrightarrow> (\<exists>v. m = Inr v \<and> f v = Inr r)"
  by (cases m) simp_all

lemma list_index_in_set: "list_index xs i = Inr x \<Longrightarrow> x \<in> set xs"
  by (auto simp add: list_index_def split: if_splits)

lemmas key_defs = KEY_UP_def KEY_DOWN_def KEY_ENTER_def quit_keys_def

lemma draw_header_constant [simp]: "draw_header [] = Inr ()"
  by (simp add: draw_header_def addstr_def)

section \<open>The validator on malformed and on empty inventories\<close>

text \<open>
  C9: \<^verbatim>\<open>validate_config\<close> is not total. On a \<^verbatim>\<open>networks\<close> list whose first element is
  an integer it raises \<^verbatim>\<open>TypeError\<close> (the membership test \<^verbatim>\<open>'name' not in network\<close>
  needs a container) instead of returning a list of messages.
\<close>

theorem validate_config_raises_on_integer_network:
  "validate_config fs (JObj [(''networks'', JList (JInt n # rest))]) = Inl TypeError"
  by (simp add: validate_config_def validate_network_def)

text \<open>
  C10: the inventory \<^verbatim>\<open>{"networks": []}\<close> is accepted: the validator returns the empty
  list, and \<^verbatim>\<open>run\<close> enters the interactive loop, which draws a network menu of zero
  rows and waits for a key.
\<close>

theorem empty_networks_accepted:
  "validate_config fs (JObj [(''networks'', JList [])]) = Inr []
   \<and> run fs E (JObj [(''networks'', JList [])]) []
       = Waiting [Draw (NetworkScreen [])] (NetworkList 0)"
  by (simp add: validate_config_def run_def run_network_selection_def)

section \<open>The interactive loop on an empty network list\<close>

text \<open>
  C1: the loop is not crash-free after validation. The inventory \<^verbatim>\<open>{"networks": []}\<close>
  passes the validator, and the first ENTER in the network menu evaluates
  \<^verbatim>\<open>networks[current_row]\<close> on the empty list: \<^verbatim>\<open>IndexError\<close>, caught nowhere.
\<close>

theorem confirm_on_empty_network_list_raises:
  "validate_config fs (JObj [(''networks'', JList [])]) = Inr []
   \<and> run fs E (JObj [(''networks'', JList [])]) [KEY_ENTER] = Uncaught IndexError"
  by (simp add: validate_config_def run_def run_network_selection_def step_def moves_down_def
      list_index_def key_defs)

text \<open>
  C8: the cursor of the network menu is not always within \<open>[0, len - 1]\<close>. On the validated
  inventory \<^verbatim>\<open>{"networks": []}\<close> the menu waits for its first key with the cursor at 0
  and no row, so the cursor is outside the (empty) range. With at least one network the
  cursors of all three menus do stay in range: \<open>cursor_invariant_after_validation\<close> below.
\<close>

theorem cursor_outside_empty_network_list:
  "run_network_selection E (JObj [(''networks'', JList [])]) []
       = Inr ([Draw (NetworkScreen [])], NetworkList 0)
   \<and> \<not> cursor_in_range (JList []) 0"
  by (simp add: run_network_selection_def cursor_in_range_def)

section \<open>Port resolution\<close>

lemma get_port_cases:
  "get_port (JObj server) =
     (case map_of server ''port'' of
        None \<Rightarrow> Inr (JInt 22)
      | Some (JInt p) \<Rightarrow> if 1 \<le> p \<and> p \<le> 65535 then Inr (JInt p) else Inr (JInt 22)
      | Some (JBool b) \<Rightarrow> if b then Inr (JBool True) else Inr (JInt 22)
      | Some v \<Rightarrow> Inr (JInt 22))"
  by (auto simp add: get_port_def split: option.splits json.splits)

text \<open>
  C4: a stored port that is the JSON boolean \<^verbatim>\<open>true\<close> is not an integer, yet
  \<^verbatim>\<open>get_port\<close> returns it as stored instead of 22: \<^verbatim>\<open>isinstance(True, int)\<close> holds and
  \<^verbatim>\<open>1 <= True <= 65535\<close>. The validator accepts such a server for the same reason.
\<close>

theorem get_port_returns_boolean:
  "get_port (JObj [(''ip'', JStr ''10.0.0.5''), (''username'', JStr ''root''), (''port'', JBool True)])
     = Inr (JBool True)
   \<and> JBool True \<noteq> JInt 22
   \<and> validate_config fs
        (JObj [(''networks'', JList [JObj [(''name'', JStr ''lab''), (''servers'', JList
           [JObj [(''ip'', JStr ''10.0.0.5''), (''username'', JStr ''root''),
                  (''port'', JBool True)]])]])])
       = Inr []"
  by (simp add: get_port_def validate_config_def validate_network_def validate_server_def
      check_key_path_def)

section \<open>Normalization of the old server format\<close>

text \<open>
  C2, as stated, fails: the user synthesized for a server of the old format takes the
  server's own \<^verbatim>\<open>description\<close> when it has one, not the text "Default user".
\<close>

theorem legacy_description_counterexample:
  "normalize_server_format
     (JObj [(''ip'', JStr ''10.0.0.5''), (''username'', JStr ''root''), (''description'', JStr ''Web'')])
   = Inr (\<lparr>info_ip = JStr ''10.0.0.5'', info_description = JStr ''Web'', info_port = JInt 22\<rparr>,
          JList [JObj [(''username'', JStr ''root''), (''key_path'', JNull),
                       (''description'', JStr ''Web'')]])
   \<and> JStr ''Web'' \<noteq> JStr ''Default user''"
  by (simp add: normalize_server_format_def get_port_def)

text \<open>
  C2, amended: for every server of the old format (a \<^verbatim>\<open>username\<close>, no \<^verbatim>\<open>users\<close>) that
  has an \<^verbatim>\<open>ip\<close>, \<^verbatim>\<open>normalize_server_format\<close> returns a list of exactly one user, with the
  server's username, the server's \<^verbatim>\<open>key_path\<close> as given (null when absent), and as
  description the server's own \<^verbatim>\<open>description\<close> when it has one, "Default user" otherwise.
\<close>

theorem normalize_legacy_server:
  assumes "map_of server ''username'' = Some username"
    and "map_of server ''users'' = None"
    and "map_of server ''ip'' = Some ip"
  shows "\<exists>server_info.
     normalize_server_format (JObj server) =
       Inr (server_info,
            JList [JObj [(''username'', username),
                         (''key_path'', case map_of server ''key_path'' of None \<Rightarrow> JNull | Some k \<Rightarrow> k),
                         (''description'',
                            case map_of server ''description'' of
                              None \<Rightarrow> JStr ''Default user'' | Some d \<Rightarrow> d)]])"
  using assms by (simp add: normalize_server_format_def get_port_def)

theorem normalize_legacy_server_witness:
  "\<exists>server_info.
     normalize_server_format (JObj [(''ip'', JStr ''10.0.0.5''), (''username'', JStr ''root'')]) =
       Inr (server_info,
            JList [JObj [(''username'', JStr ''root''), (''key_path'', JNull),
                         (''description'', JStr ''Default user'')]])"
  using normalize_legacy_server [of "[(''ip'', JStr ''10.0.0.5''), (''username'', JStr ''root'')]"
      "JStr ''root''" "JStr ''10.0.0.5''"]
  by simp

section \<open>Authentication method\<close>

text \<open>
  C5, as stated, fails: a non-empty \<^verbatim>\<open>key_path\<close> does not always give KEY with the
  expanded path. Where the home directory of \<^verbatim>\<open>nosuchuser\<close> cannot be determined,
  \<^verbatim>\<open>Path("~nosuchuser/id_rsa").expanduser()\<close> raises \<^verbatim>\<open>RuntimeError\<close>, and so does
  \<^verbatim>\<open>get_auth_method_display\<close>, which catches nothing.
\<close>

theorem auth_method_expansion_counterexample:
  "get_auth_method_display
     (\<lambda>p. if p = ''~nosuchuser/id_rsa'' then Inl RuntimeError else Inr p)
     (JObj [(''username'', JStr ''a''), (''key_path'', JStr ''~nosuchuser/id_rsa'')])
   = Inl RuntimeError"
  by (simp add: get_auth_method_display_def)

text \<open>
  C5, amended: for every user record, when \<^verbatim>\<open>key_path\<close> is a non-empty string
  \<^verbatim>\<open>get_auth_method_display\<close> expands it and returns KEY with the expanded path, or raises
  what the expansion raises; when \<^verbatim>\<open>key_path\<close> is absent, null or the empty string it
  returns PASSWORD with no path; and it returns KEY only for a non-empty string
  \<^verbatim>\<open>key_path\<close>, with the path that string expands to.
\<close>

theorem auth_method_classification:
  "(map_of user ''key_path'' = Some (JStr p) \<and> p \<noteq> [] \<longrightarrow>
        get_auth_method_display expanduser (JObj user) =
          (case expanduser p of
             Inl e \<Rightarrow> Inl e
           | Inr expanded_path \<Rightarrow> Inr (''KEY'', Some expanded_path)))
   \<and> (map_of user ''key_path'' = None \<or> map_of user ''key_path'' = Some JNull
        \<or> map_of user ''key_path'' = Some (JStr []) \<longrightarrow>
        get_auth_method_display expanduser (JObj user) = Inr (''PASSWORD'', None))
   \<and> (get_auth_method_display expanduser (JObj user) = Inr (''KEY'', key_info) \<longrightarrow>
        (\<exists>q expanded_path. map_of user ''key_path'' = Some (JStr q) \<and> q \<noteq> []
           \<and> expanduser q = Inr expanded_path \<and> key_info = Some expanded_path))"
  by (auto simp add: get_auth_method_display_def bind_Inr_iff
      split: option.splits json.splits if_splits sum.splits)

theorem auth_method_classification_witness:
  "get_auth_method_display (\<lambda>p. Inr (''/home/op'' @ tl p))
      (JObj [(''username'', JStr ''a''), (''key_path'', JStr ''~/.ssh/id_ed25519'')])
     = Inr (''KEY'', Some ''/home/op/.ssh/id_ed25519'')
   \<and> get_auth_method_display (\<lambda>p. Inr (''/home/op'' @ tl p))
      (JObj [(''username'', JStr ''a''), (''key_path'', JStr [])])
     = Inr (''PASSWORD'', None)"
  using auth_method_classification [of "[(''username'', JStr ''a''), (''key_path'', JStr ''~/.ssh/id_ed25519'')]"
        "''~/.ssh/id_ed25519''" "\<lambda>p. Inr (''/home/op'' @ tl p)", THEN conjunct1]
    auth_method_classification [of "[(''username'', JStr ''a''), (''key_path'', JStr [])]"
        "[]" "\<lambda>p. Inr (''/home/op'' @ tl p)", THEN conjunct2, THEN conjunct1]
  by simp

section \<open>The single-user shortcut\<close>

lemma server_confirm:
  assumes "py_index servers current_row = Inr server"
    and "normalize_server_format server = Inr (server_info, users)"
    and "py_len users = Inr user_count"
  shows "handle_key E networks (ServerList outer_row network servers current_row) KEY_ENTER =
     (if user_count = 1 then
        bind (py_index users 0) (\<lambda>user.
        bind (connect_ssh (env_expanduser E) server_info user) (\<lambda>cmd.
          Inr ([Ssh cmd], ServerList outer_row network servers current_row)))
      else Inr ([], UserList outer_row network servers current_row server_info users 0))"
  using assms by (simp add: moves_down_def key_defs)

text \<open>
  C6: ENTER on a server of the server menu whose normalization yields the one-element
  user list \<open>[user]\<close> calls \<^verbatim>\<open>connect_ssh\<close> with that user and is back in the same
  server menu afterwards, whatever the call produced; it never reaches the user menu.
  On a server whose normalization yields two or more users it opens the user menu, with
  the cursor at 0 and nothing connected.
\<close>

theorem single_user_shortcut:
  assumes "py_index servers current_row = Inr server"
    and "normalize_server_format server = Inr (server_info, JList users)"
  shows "(users = [user] \<longrightarrow>
            handle_key E networks (ServerList outer_row network servers current_row) KEY_ENTER =
              bind (connect_ssh (env_expanduser E) server_info user) (\<lambda>cmd.
                Inr ([Ssh cmd], ServerList outer_row network servers current_row)))
       \<and> (length users = 1 \<and>
            handle_key E networks (ServerList outer_row network servers current_row) KEY_ENTER
                 = Inr (events, st) \<longrightarrow> st = ServerList outer_row network servers current_row)
       \<and> (2 \<le> length users \<longrightarrow>
            handle_key E networks (ServerList outer_row network servers current_row) KEY_ENTER =
              Inr ([], UserList outer_row network servers current_row server_info (JList users) 0))"
proof -
  have len: "py_len (JList users) = Inr (int (length users))"
    by simp
  note hk = server_confirm [OF assms len, of E networks outer_row network]
  have one: "handle_key E networks (ServerList outer_row network servers current_row) KEY_ENTER =
              bind (connect_ssh (env_expanduser E) server_info u) (\<lambda>cmd.
                Inr ([Ssh cmd], ServerList outer_row network servers current_row))"
    if "users = [u]" for u
    using hk that by (simp add: list_index_def)
  have stay: "st = ServerList outer_row network servers current_row"
    if "length users = 1"
      and "handle_key E networks (ServerList outer_row network servers current_row) KEY_ENTER
                 = Inr (events, st)"
  proof -
    from that(1) obtain u where "users = [u]"
      by (cases users) auto
    from one [OF this] that(2) show ?thesis
      by (cases "connect_ssh (env_expanduser E) server_info u") auto
  qed
  have many: "handle_key E networks (ServerList outer_row network servers current_row) KEY_ENTER =
              Inr ([], UserList outer_row network servers current_row server_info (JList users) 0)"
    if "2 \<le> length users"
    using hk that by simp
  from one stay many show ?thesis
    by blast
qed

theorem single_user_shortcut_witness:
  "handle_key \<lparr>env_expanduser = Inr, env_height = 24\<rparr> (JList [])
      (ServerList 0 JNull
         (JList [JObj [(''ip'', JStr ''10.0.0.5''), (''users'', JList [JObj [(''username'', JStr ''a'')]])]]) 0)
      KEY_ENTER
    = Inr ([Ssh \<lparr>cmd_port = JInt 22, cmd_key = None, cmd_username = JStr ''a'',
                   cmd_ip = JStr ''10.0.0.5''\<rparr>],
           ServerList 0 JNull
             (JList [JObj [(''ip'', JStr ''10.0.0.5''), (''users'', JList [JObj [(''username'', JStr ''a'')]])]]) 0)
   \<and> handle_key \<lparr>env_expanduser = Inr, env_height = 24\<rparr> (JList [])
      (ServerList 0 JNull
         (JList [JObj [(''ip'', JStr ''10.0.0.5''),
                       (''users'', JList [JObj [(''username'', JStr ''a'')], JObj [(''username'', JStr ''b'')]])]]) 0)
      KEY_ENTER
    = Inr ([], UserList 0 JNull
         (JList [JObj [(''ip'', JStr ''10.0.0.5''),
                       (''users'', JList [JObj [(''username'', JStr ''a'')], JObj [(''username'', JStr ''b'')]])]]) 0
         \<lparr>info_ip = JStr ''10.0.0.5'', info_description = JStr ''N/A'', info_port = JInt 22\<rparr>
         (JList [JObj [(''username'', JStr ''a'')], JObj [(''username'', JStr ''b'')]]) 0)"
proof -
  let ?E = "\<lparr>env_expanduser = Inr, env_height = 24\<rparr>"
  let ?info = "\<lparr>info_ip = JStr ''10.0.0.5'', info_description = JStr ''N/A'', info_port = JInt 22\<rparr>"
  let ?a = "JObj [(''username'', JStr ''a'')]"
  let ?b = "JObj [(''username'', JStr ''b'')]"
  let ?s1 = "JObj [(''ip'', JStr ''10.0.0.5''), (''users'', JList [?a])]"
  let ?s2 = "JObj [(''ip'', JStr ''10.0.0.5''), (''users'', JList [?a, ?b])]"
  have i1: "py_index (JList [?s1]) 0 = Inr ?s1"
    by (simp add: list_index_def)
  have n1: "normalize_server_format ?s1 = Inr (?info, JList [?a])"
    by (simp add: normalize_server_format_def get_port_def)
  have i2: "py_index (JList [?s2]) 0 = Inr ?s2"
    by (simp add: list_index_def)
  have n2: "normalize_server_format ?s2 = Inr (?info, JList [?a, ?b])"
    by (simp add: normalize_server_format_def get_port_def)
  have c: "connect_ssh Inr ?info ?a
     = Inr \<lparr>cmd_port = JInt 22, cmd_key = None, cmd_username = JStr ''a'', cmd_ip = JStr ''10.0.0.5''\<rparr>"
    by (simp add: connect_ssh_def get_auth_method_display_def)
  from single_user_shortcut [OF i1 n1, of ?a ?E "JList []" 0 JNull, THEN conjunct1] c
  have one: "handle_key ?E (JList []) (ServerList 0 JNull (JList [?s1]) 0) KEY_ENTER
    = Inr ([Ssh \<lparr>cmd_port = JInt 22, cmd_key = None, cmd_username = JStr ''a'',
                   cmd_ip = JStr ''10.0.0.5''\<rparr>], ServerList 0 JNull (JList [?s1]) 0)"
    by simp
  from single_user_shortcut [OF i2 n2, of undefined ?E "JList []" 0 JNull, THEN conjunct2, THEN conjunct2]
  have two: "handle_key ?E (JList []) (ServerList 0 JNull (JList [?s2]) 0) KEY_ENTER
    = Inr ([], UserList 0 JNull (JList [?s2]) 0 ?info (JList [?a, ?b]) 0)"
    by simp
  from one two show ?thesis
    by blast
qed

section \<open>The loops of the validator\<close>

lemma for_each_Inr_nth:
  "for_each body idx xs = Inr errors \<Longrightarrow> j < length xs \<Longrightarrow>
     \<exists>e. body (idx + j) (xs ! j) = Inr e \<and> set e \<subseteq> set errors"
proof (induction xs arbitrary: idx errors j)
  case Nil
  then show ?case by simp
next
  case (Cons x xs)
  from Cons.prems(1) obtain e more where
    e: "body idx x = Inr e" and more: "for_each body (Suc idx) xs = Inr more"
    and errors: "errors = e @ more"
    by (auto simp add: bind_Inr_iff)
  show ?case
  proof (cases j)
    case 0
    with e errors show ?thesis by simp
  next
    case (Suc j')
    with Cons.prems(2) have "j' < length xs" by simp
    from Cons.IH [OF more this] Suc errors show ?thesis by auto
  qed
qed

lemma for_each_total:
  "(\<And>j. j < length xs \<Longrightarrow> \<exists>e. body (idx + j) (xs ! j) = Inr e) \<Longrightarrow>
     \<exists>errors. for_each body idx xs = Inr errors"
proof (induction xs arbitrary: idx)
  case Nil
  then show ?case by simp
next
  case (Cons x xs)
  from Cons.prems [of 0] obtain e where e: "body idx x = Inr e" by auto
  have "\<exists>e. body (Suc idx + j) (xs ! j) = Inr e" if "j < length xs" for j
    using Cons.prems [of "Suc j"] that by simp
  from Cons.IH [OF this] obtain more where "for_each body (Suc idx) xs = Inr more" by blast
  with e show ?case by simp
qed

lemma check_key_path_total:
  assumes "typed_key_path kvs"
    and "\<And>p. \<exists>q. fs_expanduser fs p = Inr q"
    and "\<And>q. \<exists>found. fs_exists fs q = Inr found"
  shows "\<exists>e. check_key_path fs (JObj kvs) not_found = Inr e"
proof (cases "map_of kvs ''key_path''")
  case None
  then show ?thesis by (simp add: check_key_path_def)
next
  case (Some key_path)
  show ?thesis
  proof (cases key_path)
    case JNull
    with Some show ?thesis by (simp add: check_key_path_def)
  next
    case (JStr p)
    from assms(2) obtain q where q: "fs_expanduser fs p = Inr q" by blast
    from assms(3) obtain found where "fs_exists fs q = Inr found" by blast
    with q Some JStr show ?thesis by (simp add: check_key_path_def)
  qed (use Some assms(1) in \<open>simp_all add: typed_key_path_def\<close>)
qed

lemma validate_user_total:
  assumes "typed_user user"
    and "\<And>p. \<exists>q. fs_expanduser fs p = Inr q"
    and "\<And>q. \<exists>found. fs_exists fs q = Inr found"
  shows "\<exists>e. validate_user fs idx srv_idx user_idx user = Inr e"
proof -
  from assms(1) obtain kvs where user: "user = JObj kvs" and kp: "typed_key_path kvs"
    by (auto simp add: typed_user_def split: json.splits)
  from check_key_path_total [OF kp assms(2,3)] obtain e where
    "check_key_path fs (JObj kvs) (UserKeyNotFound idx srv_idx user_idx) = Inr e"
    by blast
  with user show ?thesis
    by (simp add: validate_user_def)
qed

lemma users_errors_total:
  assumes "case map_of kvs ''users'' of Some (JList us) \<Rightarrow> list_all typed_user us | _ \<Rightarrow> True"
    and "\<And>p. \<exists>q. fs_expanduser fs p = Inr q"
    and "\<And>q. \<exists>found. fs_exists fs q = Inr found"
  shows "\<exists>e. (if map_of kvs ''users'' \<noteq> None then
             bind (py_getitem (JObj kvs) ''users'') (\<lambda>users.
               case users of
                 JList us \<Rightarrow>
                   if us = [] then Inr [UsersEmpty idx srv_idx]
                   else for_each (validate_user fs idx srv_idx) 0 us
               | _ \<Rightarrow> Inr [UsersNotArray idx srv_idx])
           else Inr []) = Inr e"
proof (cases "map_of kvs ''users''")
  case None
  then show ?thesis by simp
next
  case (Some users)
  show ?thesis
  proof (cases users)
    case (JList us)
    with Some assms(1) have "list_all typed_user us" by simp
    then have "\<exists>e. validate_user fs idx srv_idx (0 + j) (us ! j) = Inr e"
      if "j < length us" for j
      using that validate_user_total [OF _ assms(2,3)] by (simp add: list_all_length)
    from for_each_total [of us "validate_user fs idx srv_idx" 0, OF this]
    obtain e where "for_each (validate_user fs idx srv_idx) 0 us = Inr e"
      by blast
    with Some JList show ?thesis by simp
  qed (use Some in simp_all)
qed

lemma port_errors_total:
  "\<exists>e. (if map_of kvs ''port'' \<noteq> None then
             bind (py_getitem (JObj kvs) ''port'') (\<lambda>port.
               if port = JNull then Inr []
               else if \<not> isinstance_int port then Inr [InvalidPort idx srv_idx port]
               else if \<not> (1 \<le> int_value port \<and> int_value port \<le> 65535)
                 then Inr [InvalidPort idx srv_idx port]
               else Inr [])
           else Inr []) = Inr e"
  by (cases "map_of kvs ''port''") auto

lemma validate_server_total:
  assumes "typed_server server"
    and "\<And>p. \<exists>q. fs_expanduser fs p = Inr q"
    and "\<And>q. \<exists>found. fs_exists fs q = Inr found"
  shows "\<exists>e. validate_server fs idx srv_idx server = Inr e"
proof -
  from assms(1) obtain kvs where server: "server = JObj kvs" and kp: "typed_key_path kvs"
    and us: "case map_of kvs ''users'' of Some (JList us) \<Rightarrow> list_all typed_user us | _ \<Rightarrow> True"
    by (auto simp add: typed_server_def split: json.splits)
  from users_errors_total [OF us assms(2,3)] obtain ue where ue: "(if map_of kvs ''users'' \<noteq> None then
             bind (py_getitem (JObj kvs) ''users'') (\<lambda>users.
               case users of
                 JList us \<Rightarrow>
                   if us = [] then Inr [UsersEmpty idx srv_idx]
                   else for_each (validate_user fs idx srv_idx) 0 us
               | _ \<Rightarrow> Inr [UsersNotArray idx srv_idx])
           else Inr []) = Inr ue"
    by blast
  from port_errors_total obtain pe where pe: "(if map_of kvs ''port'' \<noteq> None then
             bind (py_getitem (JObj kvs) ''port'') (\<lambda>port.
               if port = JNull then Inr []
               else if \<not> isinstance_int port then Inr [InvalidPort idx srv_idx port]
               else if \<not> (1 \<le> int_value port \<and> int_value port \<le> 65535)
                 then Inr [InvalidPort idx srv_idx port]
               else Inr [])
           else Inr []) = Inr pe"
    by blast
  from check_key_path_total [OF kp assms(2,3)] obtain ke where
    ke: "check_key_path fs (JObj kvs) (ServerKeyNotFound idx srv_idx) = Inr ke"
    by blast
  show ?thesis
    unfolding server validate_server_def py_in.simps bind_Inr ue pe ke
    by simp
qed

lemma validate_network_total:
  assumes "typed_network network"
    and "\<And>p. \<exists>q. fs_expanduser fs p = Inr q"
    and "\<And>q. \<exists>found. fs_exists fs q = Inr found"
  shows "\<exists>e. validate_network fs idx network = Inr e"
proof -
  from assms(1) obtain kvs where network: "network = JObj kvs"
    and srvs: "case map_of kvs ''servers'' of Some (JList srvs) \<Rightarrow> list_all typed_server srvs | _ \<Rightarrow> True"
    by (auto simp add: typed_network_def split: json.splits)
  have "\<exists>e. (if map_of kvs ''servers'' \<noteq> None then
             bind (py_getitem (JObj kvs) ''servers'') (\<lambda>servers.
               case servers of
                 JList srvs \<Rightarrow> for_each (validate_server fs idx) 0 srvs
               | _ \<Rightarrow> Inr [ServersNotArray idx])
           else Inr []) = Inr e"
  proof (cases "map_of kvs ''servers''")
    case None
    then show ?thesis by simp
  next
    case (Some servers)
    show ?thesis
    proof (cases servers)
      case (JList ss)
      with Some srvs have "list_all typed_server ss" by simp
      then have "\<exists>e. validate_server fs idx (0 + j) (ss ! j) = Inr e"
        if "j < length ss" for j
        using that validate_server_total [OF _ assms(2,3)] by (simp add: list_all_length)
      from for_each_total [of ss "validate_server fs idx" 0, OF this]
      obtain e where "for_each (validate_server fs idx) 0 ss = Inr e"
        by blast
      with Some JList show ?thesis by simp
    qed (use Some in simp_all)
  qed
  then obtain se where se: "(if map_of kvs ''servers'' \<noteq> None then
             bind (py_getitem (JObj kvs) ''servers'') (\<lambda>servers.
               case servers of
                 JList srvs \<Rightarrow> for_each (validate_server fs idx) 0 srvs
               | _ \<Rightarrow> Inr [ServersNotArray idx])
           else Inr []) = Inr se"
    by blast
  show ?thesis
    unfolding network validate_network_def py_in.simps bind_Inr se
    by simp
qed

lemma validate_config_networks:
  "map_of cfg ''networks'' = Some (JList nets) \<Longrightarrow>
     validate_config fs (JObj cfg) = for_each (validate_network fs) 0 nets"
  by (simp add: validate_config_def)

text \<open>
  On an inventory of records, with a file system whose lookups return, the validator
  returns its list.
\<close>

lemma validate_config_total:
  assumes "typed_config config"
    and "\<And>p. \<exists>q. fs_expanduser fs p = Inr q"
    and "\<And>q. \<exists>found. fs_exists fs q = Inr found"
  shows "\<exists>errors. validate_config fs config = Inr errors"
proof (cases config)
  case (JObj kvs)
  show ?thesis
  proof (cases "map_of kvs ''networks''")
    case None
    with JObj show ?thesis by (simp add: validate_config_def)
  next
    case (Some networks)
    show ?thesis
    proof (cases networks)
      case (JList nets)
      with Some JObj assms(1) have "list_all typed_network nets"
        by (simp add: typed_config_def)
      then have "\<exists>e. validate_network fs (0 + j) (nets ! j) = Inr e"
        if "j < length nets" for j
        using that validate_network_total [OF _ assms(2,3)] by (simp add: list_all_length)
      from for_each_total [of nets "validate_network fs" 0, OF this]
      show ?thesis
        using JObj Some JList by (simp add: validate_config_def)
    qed (use JObj Some in \<open>simp_all add: validate_config_def\<close>)
  qed
qed (simp_all add: validate_config_def)


lemma validate_network_servers:
  assumes "validate_network fs idx (JObj net) = Inr errors"
    and "map_of net ''servers'' = Some (JList srvs)"
  shows "\<exists>se. for_each (validate_server fs idx) 0 srvs = Inr se \<and> set se \<subseteq> set errors"
  using assms by (auto simp add: validate_network_def bind_Inr_iff)

lemma validate_network_Nil:
  assumes "validate_network fs idx network = Inr []"
  shows "\<exists>kvs name srvs. network = JObj kvs \<and> map_of kvs ''name'' = Some name
           \<and> map_of kvs ''servers'' = Some (JList srvs)"
proof (cases network)
  case (JObj kvs)
  with assms have name: "map_of kvs ''name'' \<noteq> None" and servers: "map_of kvs ''servers'' \<noteq> None"
    by (auto simp add: validate_network_def bind_Inr_iff split: if_splits)
  then obtain nm sv where nm: "map_of kvs ''name'' = Some nm" and sv: "map_of kvs ''servers'' = Some sv"
    by auto
  with assms JObj have "\<exists>srvs. sv = JList srvs"
    by (cases sv) (auto simp add: validate_network_def bind_Inr_iff)
  with JObj nm sv show ?thesis by auto
next
  case (JList xs)
  with assms show ?thesis
    by (auto simp add: validate_network_def bind_Inr_iff split: if_splits)
next
  case (JStr s)
  with assms show ?thesis
    by (auto simp add: validate_network_def bind_Inr_iff split: if_splits)
qed (use assms in \<open>simp_all add: validate_network_def\<close>)

section \<open>Credential shapes\<close>




section \<open>Confirming a network that has no server\<close>

text \<open>
  C7: confirming a network whose \<^verbatim>\<open>servers\<close> list is empty is not free of exceptions. The
  inventory below passes the validator; its network's name holds a NUL character. In a
  window of 7 lines the network menu draws no row and waits; ENTER opens the message
  screen, whose header writes the name: \<^verbatim>\<open>addstr\<close> raises \<^verbatim>\<open>ValueError\<close>, which the
  \<^verbatim>\<open>except curses.error\<close> around it does not catch, and nothing else does.
\<close>

theorem confirm_empty_network_nul_name_raises:
  "validate_config fs
     (JObj [(''networks'', JList
        [JObj [(''name'', JStr [CHR ''a'', CHR 0x00, CHR ''b'']), (''servers'', JList [])]])])
     = Inr []
   \<and> run fs \<lparr>env_expanduser = expand, env_height = 7\<rparr>
     (JObj [(''networks'', JList
        [JObj [(''name'', JStr [CHR ''a'', CHR 0x00, CHR ''b'']), (''servers'', JList [])]])]) []
     = Waiting [Draw (NetworkScreen [])] (NetworkList 0)
   \<and> run fs \<lparr>env_expanduser = expand, env_height = 7\<rparr>
     (JObj [(''networks'', JList
        [JObj [(''name'', JStr [CHR ''a'', CHR 0x00, CHR ''b'']), (''servers'', JList [])]])])
     [KEY_ENTER]
     = Uncaught ValueError"
  by (simp add: validate_config_def validate_network_def run_def run_network_selection_def
      step_def moves_down_def list_index_def run_server_selection_def draw_header_def addstr_def
      key_defs)

text \<open>
  When the name of the network can be written (it holds no NUL), the confirmation does
  what C7 says: ENTER on a network whose \<^verbatim>\<open>servers\<close> list is empty draws the message
  "No servers configured in this network" under the network's name and waits for one key;
  every key then leads back to the network menu, drawn as it was, with the cursor where
  it was.
\<close>

lemma empty_network_confirm_written_name:
  assumes "py_index networks current_row = Inr network"
    and "py_getitem network ''servers'' = Inr (JList [])"
    and "py_getitem network ''name'' = Inr name"
    and "\<not> has_nul name"
    and "draw E networks (NetworkList current_row) = Inr menu"
  shows "step E networks (NetworkList current_row) KEY_ENTER
          = Inr ([Draw (NoServersScreen name ''No servers configured in this network'')],
                 NoServers current_row network)
      \<and> (\<forall>key. step E networks (NoServers current_row network) key
                 = Inr (menu, NetworkList current_row))"
proof -
  from assms(2) obtain kvs where network: "network = JObj kvs"
    and servers: "map_of kvs ''servers'' = Some (JList [])"
    by (cases network) (auto split: option.splits)
  have enter: "run_server_selection current_row network = Inr (NoServers current_row network)"
    using network servers by (simp add: run_server_selection_def)
  have confirm: "handle_key E networks (NetworkList current_row) KEY_ENTER
      = Inr ([], NoServers current_row network)"
    using assms(1) enter by (simp add: moves_down_def key_defs)
  have message: "draw E networks (NoServers current_row network)
      = Inr [Draw (NoServersScreen name ''No servers configured in this network'')]"
    using assms(3,4) by (simp add: draw_header_def addstr_def)
  have "step E networks (NetworkList current_row) KEY_ENTER
          = Inr ([Draw (NoServersScreen name ''No servers configured in this network'')],
                 NoServers current_row network)"
    unfolding step_def confirm using message by simp
  moreover have "step E networks (NoServers current_row network) key
                 = Inr (menu, NetworkList current_row)" for key
    unfolding step_def using assms(5) by simp
  ultimately show ?thesis
    by blast
qed

section \<open>The cursors stay in range in a validated inventory that has a network\<close>

lemma cursor_up: "cursor_in_range xs r \<Longrightarrow> 0 < r \<Longrightarrow> cursor_in_range xs (r - 1)"
  by (auto simp add: cursor_in_range_def split: sum.splits)

lemma cursor_down:
  "cursor_in_range xs r \<Longrightarrow> moves_down key xs r = Inr True \<Longrightarrow> cursor_in_range xs (r + 1)"
  by (auto simp add: cursor_in_range_def moves_down_def split: sum.splits if_splits)

lemma moves_down_returns:
  "cursor_in_range xs r \<Longrightarrow> \<exists>down. moves_down key xs r = Inr down"
  by (auto simp add: cursor_in_range_def moves_down_def split: sum.splits)

lemma cursor_in_nonempty_list: "xs \<noteq> [] \<Longrightarrow> cursor_in_range (JList xs) 0"
  by (cases xs) (simp_all add: cursor_in_range_def)

lemma run_server_selection_ok:
  assumes "network_ok network" and "run_server_selection outer_row network = Inr st'"
    and "cursor_in_range networks outer_row"
  shows "state_ok networks st'"
proof -
  from assms(1) obtain kvs servers where network: "network = JObj kvs"
    and servers: "map_of kvs ''servers'' = Some servers" and ok: "servers_ok servers"
    by (cases network) (auto split: option.splits)
  from ok obtain srvs where srvs: "servers = JList srvs"
    by (cases servers) simp_all
  show ?thesis
  proof (cases "srvs = []")
    case True
    with assms(2,3) network servers srvs show ?thesis
      by (auto simp add: run_server_selection_def)
  next
    case False
    with assms(2,3) network servers srvs ok show ?thesis
      by (auto simp add: run_server_selection_def cursor_in_nonempty_list)
  qed
qed

lemma network_list_preserved:
  assumes ok: "networks_ok networks" and inv: "cursor_in_range networks current_row"
    and hk: "handle_key E networks (NetworkList current_row) key = Inr (events, st')"
  shows "state_ok networks st'"
proof (cases "key = KEY_UP \<and> current_row > 0")
  case True
  with hk inv show ?thesis by (auto simp add: cursor_up)
next
  case no_up: False
  from moves_down_returns [OF inv] obtain down where down: "moves_down key networks current_row = Inr down"
    by blast
  show ?thesis
  proof (cases down)
    case True
    with no_up hk down inv show ?thesis
      by (auto simp add: cursor_down)
  next
    case no_down: False
    show ?thesis
    proof (cases "key = KEY_ENTER")
      case True
      with no_up no_down down hk obtain network where
        network: "py_index networks current_row = Inr network"
        and enter: "run_server_selection current_row network = Inr st'"
        by (auto simp add: bind_Inr_iff)
      from ok obtain nets where nets: "networks = JList nets" and all: "list_all network_ok nets"
        by (cases networks) simp_all
      from network nets have "network \<in> set nets"
        by (simp add: list_index_in_set)
      with all have "network_ok network"
        by (simp add: list_all_iff)
      from run_server_selection_ok [OF this enter inv] show ?thesis .
    next
      case False
      with no_up no_down down hk inv show ?thesis
        by (auto split: if_splits)
    qed
  qed
qed

lemma normalize_users_nonempty:
  assumes "server_ok server" and "normalize_server_format server = Inr (server_info, users)"
    and "py_len users = Inr user_count" and "user_count \<noteq> 1"
  shows "cursor_in_range users 0"
proof -
  from assms(2) obtain kvs where server: "server = JObj kvs"
    by (cases server) (simp_all add: normalize_server_format_def)
  show ?thesis
  proof (cases "map_of kvs ''users''")
    case None
    with assms(2,3,4) server show ?thesis
      by (auto simp add: normalize_server_format_def bind_Inr_iff)
  next
    case (Some us)
    with assms(1) server obtain xs where "us = JList xs" "xs \<noteq> []"
      by (cases us) simp_all
    with assms(2) server Some show ?thesis
      by (auto simp add: normalize_server_format_def bind_Inr_iff cursor_in_nonempty_list)
  qed
qed

lemma server_list_preserved:
  assumes inv: "state_ok networks (ServerList outer_row network servers current_row)"
    and hk: "handle_key E networks (ServerList outer_row network servers current_row) key
               = Inr (events, st')"
  shows "state_ok networks st'"
proof (cases "key = KEY_UP \<and> current_row > 0")
  case True
  with hk inv show ?thesis by (auto simp add: cursor_up)
next
  case no_up: False
  from inv have cur: "cursor_in_range servers current_row" by simp
  from moves_down_returns [OF cur] obtain down where down: "moves_down key servers current_row = Inr down"
    by blast
  show ?thesis
  proof (cases down)
    case True
    with no_up hk down inv show ?thesis
      by (auto simp add: cursor_down)
  next
    case no_down: False
    show ?thesis
    proof (cases "key = KEY_ENTER")
      case True
      with no_up no_down down hk obtain server server_info users user_count where
        server: "py_index servers current_row = Inr server"
        and norm: "normalize_server_format server = Inr (server_info, users)"
        and len: "py_len users = Inr user_count"
        and rest: "(if user_count = 1 then
              bind (py_index users 0) (\<lambda>user.
              bind (connect_ssh (env_expanduser E) server_info user) (\<lambda>cmd.
                Inr ([Ssh cmd], ServerList outer_row network servers current_row)))
            else
              Inr ([], UserList outer_row network servers current_row server_info users 0))
          = Inr (events, st')"
        by (auto simp add: bind_Inr_iff)
      show ?thesis
      proof (cases "user_count = 1")
        case True
        with rest inv show ?thesis
          by (auto simp add: bind_Inr_iff)
      next
        case False
        from inv obtain srvs where srvs: "servers = JList srvs" and all: "list_all server_ok srvs"
          by (cases servers) simp_all
        from server srvs have "server \<in> set srvs"
          by (simp add: list_index_in_set)
        with all have "server_ok server"
          by (simp add: list_all_iff)
        from normalize_users_nonempty [OF this norm len False] rest False inv show ?thesis
          by auto
      qed
    next
      case False
      with no_up no_down down hk inv show ?thesis
        by (auto split: if_splits)
    qed
  qed
qed

lemma user_list_preserved:
  assumes inv: "state_ok networks (UserList outer_row network servers server_row server_info users current_row)"
    and hk: "handle_key E networks
               (UserList outer_row network servers server_row server_info users current_row) key
               = Inr (events, st')"
  shows "state_ok networks st'"
proof (cases "key = KEY_UP \<and> current_row > 0")
  case True
  with hk inv show ?thesis by (auto simp add: cursor_up)
next
  case no_up: False
  from inv have cur: "cursor_in_range users current_row" by simp
  from moves_down_returns [OF cur] obtain down where down: "moves_down key users current_row = Inr down"
    by blast
  show ?thesis
  proof (cases down)
    case True
    with no_up hk down inv show ?thesis
      by (auto simp add: cursor_down)
  next
    case False
    with no_up down hk inv show ?thesis
      by (auto simp add: bind_Inr_iff split: if_splits)
  qed
qed

lemma handle_key_preserves_state_ok:
  assumes "networks_ok networks" and "state_ok networks st"
    and "handle_key E networks st key = Inr (events, st')"
  shows "state_ok networks st'"
proof (cases st)
  case (NetworkList current_row)
  with assms network_list_preserved show ?thesis by auto
next
  case (NoServers outer_row network)
  with assms show ?thesis by auto
next
  case (ServerList outer_row network servers current_row)
  with assms server_list_preserved show ?thesis by blast
next
  case (UserList outer_row network servers server_row server_info users current_row)
  with assms user_list_preserved show ?thesis by blast
next
  case Exit
  with assms show ?thesis by auto
qed

lemma run_keys_preserves_state_ok:
  assumes "networks_ok networks"
  shows "state_ok networks st \<Longrightarrow> run_keys E networks st keys = Inr (events, st')
           \<Longrightarrow> state_ok networks st'"
proof (induction keys arbitrary: st events)
  case Nil
  then show ?case by simp
next
  case (Cons key keys)
  from Cons.prems(2) obtain ev1 st1 ev2 where
    step1: "step E networks st key = Inr (ev1, st1)"
    and rest: "run_keys E networks st1 keys = Inr (ev2, st')"
    by (auto simp add: bind_Inr_iff)
  from step1 obtain ev0 where "handle_key E networks st key = Inr (ev0, st1)"
    by (auto simp add: step_def bind_Inr_iff)
  from handle_key_preserves_state_ok [OF assms Cons.prems(1) this] have "state_ok networks st1" .
  from Cons.IH [OF this rest] show ?case .
qed

lemma validate_server_Nil_ok:
  assumes "validate_server fs idx srv_idx server = Inr []"
  shows "server_ok server"
proof (cases server)
  case (JObj kvs)
  show ?thesis
  proof (cases "map_of kvs ''users''")
    case None
    with JObj show ?thesis by simp
  next
    case (Some users)
    from assms JObj Some obtain ue where
      "bind (py_getitem (JObj kvs) ''users'') (\<lambda>users.
               case users of
                 JList us \<Rightarrow>
                   if us = [] then Inr [UsersEmpty idx srv_idx]
                   else for_each (validate_user fs idx srv_idx) 0 us
               | _ \<Rightarrow> Inr [UsersNotArray idx srv_idx]) = Inr ue" and "ue = []"
      by (auto simp add: validate_server_def bind_Inr_iff)
    with Some have "nonempty_list users"
      by (cases users) (auto split: if_splits)
    with JObj Some show ?thesis by simp
  qed
qed simp_all

lemma validate_network_Nil_ok:
  assumes "validate_network fs idx network = Inr []"
  shows "network_ok network"
proof -
  from validate_network_Nil [OF assms] obtain kvs name srvs where
    network: "network = JObj kvs" and servers: "map_of kvs ''servers'' = Some (JList srvs)"
    by blast
  from validate_network_servers [OF assms [unfolded network] servers]
  have all: "for_each (validate_server fs idx) 0 srvs = Inr []"
    by auto
  have "server_ok (srvs ! j)" if "j < length srvs" for j
  proof -
    from for_each_Inr_nth [OF all that] have "validate_server fs idx (0 + j) (srvs ! j) = Inr []"
      by auto
    then show ?thesis
      by (rule validate_server_Nil_ok)
  qed
  then have "list_all server_ok srvs"
    by (simp add: list_all_length)
  with network servers show ?thesis
    by simp
qed

lemma validated_networks_ok:
  assumes "validate_config fs config = Inr []"
    and "py_getitem config ''networks'' = Inr networks"
  shows "networks_ok networks"
proof -
  from assms(2) obtain cfg where config: "config = JObj cfg"
    and networks: "map_of cfg ''networks'' = Some networks"
    by (cases config) (auto split: option.splits)
  from assms(1) config networks obtain nets where nets: "networks = JList nets"
    by (cases networks) (simp_all add: validate_config_def)
  with assms(1) config networks have all: "for_each (validate_network fs) 0 nets = Inr []"
    by (simp add: validate_config_networks)
  have "network_ok (nets ! j)" if "j < length nets" for j
  proof -
    from for_each_Inr_nth [OF all that] have "validate_network fs (0 + j) (nets ! j) = Inr []"
      by auto
    then show ?thesis
      by (rule validate_network_Nil_ok)
  qed
  with nets show ?thesis
    by (simp add: list_all_length)
qed

text \<open>
  In a validated inventory with at least one network, whatever keys are pressed and
  wherever the loop then waits, every cursor is within \<open>[0, len - 1]\<close> of its list: the
  menu's own cursor and the cursors of the menus it returns to.
\<close>

lemma cursor_invariant_after_validation:
  assumes "validate_config fs config = Inr []"
    and "py_getitem config ''networks'' = Inr networks"
    and "networks \<noteq> JList []"
    and "run_network_selection E config keys = Inr (events, st)"
  shows "state_ok networks st"
proof -
  note ok = validated_networks_ok [OF assms(1,2)]
  then obtain nets where nets: "networks = JList nets"
    by (cases networks) simp_all
  with assms(3) have start: "state_ok networks (NetworkList 0)"
    by (simp add: cursor_in_nonempty_list)
  from assms(2,4) obtain ev where "run_keys E networks (NetworkList 0) keys = Inr (ev, st)"
    by (auto simp add: run_network_selection_def bind_Inr_iff)
  from run_keys_preserves_state_ok [OF ok start this] show ?thesis .
qed

end
